theory Spec2Isabelle
  imports Main "HOL-Library.Multiset" "HOL-Library.Sublist"
begin

section \<open>Identity layer: \<open>useStacks\<close>\<close>

text \<open>
  \<open>StacksUserProfile\<close> and \<open>StacksUserData\<close> of \<open>src/hooks/useStacks.ts\<close>. Every
  optional field (\<open>mainnet?\<close>, \<open>testnet?\<close>, \<open>stxAddress?\<close>, \<open>profile?\<close>) is an
  \<open>option\<close>: \<open>None\<close> is JavaScript's \<open>undefined\<close>. The state variable
  \<open>userData : StacksUserData | null\<close> is a \<open>StacksUserData option\<close>.
\<close>

record StxAddress =
  mainnet :: "string option"
  testnet :: "string option"

record StacksUserProfile =
  stxAddress :: "StxAddress option"

record StacksUserData =
  profile :: "StacksUserProfile option"

datatype StacksNetwork = Mainnet | Testnet | Disconnected

text \<open>
  JavaScript truthiness of a value of type \<open>string | undefined\<close> (or \<open>string | null\<close>):
  \<open>undefined\<close>, \<open>null\<close> and the empty string are falsy, every other string is truthy.
\<close>

definition truthy :: "string option \<Rightarrow> bool" where
  "truthy s = (case s of None \<Rightarrow> False | Some x \<Rightarrow> x \<noteq> [])"

text \<open>
  \<open>userData?.profile?.stxAddress\<close>: the optional chain, \<open>None\<close> as soon as one link is
  missing. An object, when there is one, is truthy.
\<close>

definition stxAddressOf :: "StacksUserData option \<Rightarrow> StxAddress option" where
  "stxAddressOf userData =
     (case userData of
        None \<Rightarrow> None
      | Some d \<Rightarrow> (case profile d of None \<Rightarrow> None | Some p \<Rightarrow> stxAddress p))"

text \<open>The memoised \<open>network\<close> value (lines 157-171).\<close>

definition network :: "StacksUserData option \<Rightarrow> StacksNetwork" where
  "network userData =
     (case stxAddressOf userData of
        None \<Rightarrow> Disconnected
      | Some sa \<Rightarrow>
          if truthy (testnet sa) then Testnet
          else if truthy (mainnet sa) then Mainnet
          else Disconnected)"

text \<open>
  The memoised \<open>address\<close> value (lines 176-187):
  \<open>testnet || mainnet || null\<close>, where \<open>a || b\<close> is \<open>a\<close> when \<open>a\<close> is truthy and
  \<open>b\<close> otherwise.
\<close>

definition address :: "StacksUserData option \<Rightarrow> string option" where
  "address userData =
     (case stxAddressOf userData of
        None \<Rightarrow> None
      | Some sa \<Rightarrow>
          if truthy (testnet sa) then testnet sa
          else if truthy (mainnet sa) then mainnet sa
          else None)"

section \<open>Data model of \<open>useMultisig\<close>\<close>

record MultisigSigner =
  signer_address :: string
  hasSigned :: bool

datatype TransactionStatus = Pending | Signed | ReadyToExecute | Executed | Failed

datatype TransactionType = StxTransfer | TokenTransfer

text \<open>
  \<open>MultisigTransaction\<close>. The field \<open>type\<close> is \<open>tx_type\<close>, \<open>id\<close> is \<open>tx_id\<close> and
  \<open>signers\<close> is \<open>tx_signers\<close> here (the vault has a field \<open>signers\<close> too). \<open>amount\<close>
  is a string in the source; \<open>timestamp\<close> is the millisecond clock reading, an integer.
\<close>

record MultisigTransaction =
  tx_id :: string
  tx_type :: TransactionType
  amount :: string
  recipient :: string
  tokenContract :: "string option"
  txHash :: string
  status :: TransactionStatus
  tx_signers :: "MultisigSigner list"
  timestamp :: int
  executedTxId :: "string option"

text \<open>
  \<open>MultisigVault\<close>. \<open>address\<close> is \<open>vault_address\<close> and \<open>signers\<close> is \<open>vault_signers\<close>
  here. \<open>threshold\<close> is a \<open>number\<close> in the source and an integer here.
\<close>

record MultisigVault =
  vault_address :: string
  vault_signers :: "string list"
  threshold :: int
  balance :: string
  transactions :: "MultisigTransaction list"

text \<open>The three state variables of the hook (lines 303-305).\<close>

record HookState =
  vault :: "MultisigVault option"
  isLoading :: bool
  error :: "string option"

definition initialState :: HookState where
  "initialState = \<lparr>vault = None, isLoading = False, error = None\<rparr>"

section \<open>\<open>fetchVault\<close>\<close>

text \<open>
  A call of \<open>fetchVault\<close> is the sequence of state setters it invokes, in order; the
  state after the call is the state before it with the setters applied.
\<close>

datatype Setter = SetVault MultisigVault | SetIsLoading bool | SetError "string option"

fun applySetter :: "HookState \<Rightarrow> Setter \<Rightarrow> HookState" where
  "applySetter s (SetVault v) = s\<lparr>vault := Some v\<rparr>"
| "applySetter s (SetIsLoading b) = s\<lparr>isLoading := b\<rparr>"
| "applySetter s (SetError e) = s\<lparr>error := e\<rparr>"

text \<open>
  The object literal \<open>mockVaultData\<close> (lines 323-357). Its only inputs are the
  requested address and \<open>Date.now()\<close>, the parameter \<open>now\<close>.
\<close>

definition mockVaultData :: "string \<Rightarrow> int \<Rightarrow> MultisigVault" where
  "mockVaultData vaultAddress now =
     \<lparr>vault_address = vaultAddress,
      vault_signers =
        [''SP2RVXN8ZCJQY8ZCJQY8ZCJQY8ZCJQY8ZCJQY8Z'',
         ''ST2RVXN8ZCJQY8ZCJQY8ZCJQY8ZCJQY8ZCJQY8Z'',
         ''SP3RVXN8ZCJQY8ZCJQY8ZCJQY8ZCJQY8ZCJQY8Z''],
      threshold = 2,
      balance = ''5000000000'',
      transactions =
        [\<lparr>tx_id = ''txn-001'',
          tx_type = StxTransfer,
          amount = ''1000000'',
          recipient = ''ST2RVXN8ZCJQY8ZCJQY8ZCJQY8ZCJQY8ZCJQY8Z'',
          tokenContract = None,
          txHash = ''0x1234567890abcdef'',
          status = Pending,
          tx_signers =
            [\<lparr>signer_address = ''SP2RVXN8ZCJQY8ZCJQY8ZCJQY8ZCJQY8ZCJQY8Z'', hasSigned = True\<rparr>,
             \<lparr>signer_address = ''ST2RVXN8ZCJQY8ZCJQY8ZCJQY8ZCJQY8ZCJQY8Z'', hasSigned = False\<rparr>,
             \<lparr>signer_address = ''SP3RVXN8ZCJQY8ZCJQY8ZCJQY8ZCJQY8ZCJQY8Z'', hasSigned = False\<rparr>],
          timestamp = now,
          executedTxId = None\<rparr>]\<rparr>"

text \<open>
  The body of the \<open>try\<close> block: \<open>Inl\<close> would be a thrown value's message, \<open>Inr\<close> the
  vault handed to \<open>setVault\<close>. Building the literal throws nothing, so the body is
  always \<open>Inr\<close>; the \<open>catch\<close> branch stays in \<open>fetchVault\<close> as the source has it.
\<close>

definition tryBody :: "string \<Rightarrow> int \<Rightarrow> string + MultisigVault" where
  "tryBody vaultAddress now = Inr (mockVaultData vaultAddress now)"

definition fetchVault :: "string \<Rightarrow> int \<Rightarrow> Setter list" where
  "fetchVault vaultAddress now =
     (if vaultAddress = [] then [SetError (Some ''Vault address is required'')]
      else [SetIsLoading True, SetError None] @
           (case tryBody vaultAddress now of
              Inr v \<Rightarrow> [SetVault v]
            | Inl errorMessage \<Rightarrow> [SetError (Some errorMessage)]) @
           [SetIsLoading False])"

definition afterFetchVault :: "string \<Rightarrow> int \<Rightarrow> HookState \<Rightarrow> HookState" where
  "afterFetchVault vaultAddress now s = foldl applySetter s (fetchVault vaultAddress now)"

text \<open>
  A transaction with its clock reading blanked, to compare the vaults of two calls
  field by field apart from \<open>timestamp\<close>.
\<close>

definition eraseTimestamp :: "MultisigTransaction \<Rightarrow> MultisigTransaction" where
  "eraseTimestamp tx = tx\<lparr>timestamp := 0\<rparr>"

section \<open>Derived values and queries\<close>

text \<open>
  Each query closes over the state variable \<open>vault\<close> and over \<open>userAddress\<close>, the
  \<open>address\<close> of \<open>useStacks\<close>; both are parameters here. \<open>!userAddress\<close> is true for
  \<open>null\<close> and for the empty string.
\<close>

definition isSigner :: "MultisigVault option \<Rightarrow> string option \<Rightarrow> bool" where
  "isSigner vlt userAddress =
     (case vlt of
        None \<Rightarrow> False
      | Some v \<Rightarrow>
          (case userAddress of
             None \<Rightarrow> False
           | Some a \<Rightarrow> if a = [] then False else a \<in> set (vault_signers v)))"

definition getTransaction :: "MultisigVault option \<Rightarrow> string \<Rightarrow> MultisigTransaction option" where
  "getTransaction vlt txId =
     (case vlt of
        None \<Rightarrow> None
      | Some v \<Rightarrow> List.find (\<lambda>tx. tx_id tx = txId) (transactions v))"

definition getSignatureCount :: "MultisigVault option \<Rightarrow> string \<Rightarrow> nat" where
  "getSignatureCount vlt txId =
     (case getTransaction vlt txId of
        None \<Rightarrow> 0
      | Some tx \<Rightarrow> length (filter hasSigned (tx_signers tx)))"

definition isReadyToExecute :: "MultisigVault option \<Rightarrow> string \<Rightarrow> bool" where
  "isReadyToExecute vlt txId =
     (case vlt of
        None \<Rightarrow> False
      | Some v \<Rightarrow> threshold v \<le> int (getSignatureCount vlt txId))"

definition getPendingTransactions :: "MultisigVault option \<Rightarrow> MultisigTransaction list" where
  "getPendingTransactions vlt =
     (case vlt of
        None \<Rightarrow> []
      | Some v \<Rightarrow> filter (\<lambda>tx. status tx \<noteq> Executed) (transactions v))"

definition getExecutedTransactions :: "MultisigVault option \<Rightarrow> MultisigTransaction list" where
  "getExecutedTransactions vlt =
     (case vlt of
        None \<Rightarrow> []
      | Some v \<Rightarrow> filter (\<lambda>tx. status tx = Executed) (transactions v))"

definition hasUserSigned :: "MultisigVault option \<Rightarrow> string option \<Rightarrow> string \<Rightarrow> bool" where
  "hasUserSigned vlt userAddress txId =
     (case userAddress of
        None \<Rightarrow> False
      | Some a \<Rightarrow>
          if a = [] then False
          else (case getTransaction vlt txId of
                  None \<Rightarrow> False
                | Some tx \<Rightarrow>
                    (case List.find (\<lambda>s. signer_address s = a) (tx_signers tx) of
                       None \<Rightarrow> False
                     | Some signer \<Rightarrow> hasSigned signer)))"

section \<open>Sample data for concrete checks\<close>

definition sampleSigners :: "MultisigSigner list" where
  "sampleSigners =
     [\<lparr>signer_address = ''SA'', hasSigned = True\<rparr>,
      \<lparr>signer_address = ''SB'', hasSigned = False\<rparr>,
      \<lparr>signer_address = ''SC'', hasSigned = True\<rparr>]"

definition sampleTx :: "string \<Rightarrow> TransactionStatus \<Rightarrow> MultisigTransaction" where
  "sampleTx i st =
     \<lparr>tx_id = i, tx_type = StxTransfer, amount = ''1'', recipient = ''SB'',
      tokenContract = None, txHash = ''0x00'', status = st, tx_signers = sampleSigners,
      timestamp = 0, executedTxId = None\<rparr>"

definition sampleVault :: MultisigVault where
  "sampleVault =
     \<lparr>vault_address = ''SV'', vault_signers = [''SA'', ''SB'', ''SC''], threshold = 2,
      balance = ''0'',
      transactions = [sampleTx ''t1'' Pending, sampleTx ''t2'' Executed, sampleTx ''t3'' Failed]\<rparr>"

definition sampleUser :: "string option \<Rightarrow> string option \<Rightarrow> StacksUserData option" where
  "sampleUser m t = Some \<lparr>profile = Some \<lparr>stxAddress = Some \<lparr>mainnet = m, testnet = t\<rparr>\<rparr>\<rparr>"

section \<open>Facts about the lookup by id\<close>

lemma find_in_set:
  assumes "List.find P xs = Some x"
  shows "x \<in> set xs \<and> P x"
  using assms by (induction xs) (auto split: if_splits)

lemma find_none_iff_no_match: "List.find P xs = None \<longleftrightarrow> (\<forall>x \<in> set xs. \<not> P x)"
  by (induction xs) auto

lemma getTransaction_known:
  assumes "i \<in> tx_id ` set (transactions v)"
  shows "\<exists>tx \<in> set (transactions v). tx_id tx = i \<and> getTransaction (Some v) i = Some tx"
proof (cases "List.find (\<lambda>tx. tx_id tx = i) (transactions v)")
  case None
  with assms show ?thesis by (auto simp: find_none_iff_no_match)
next
  case (Some tx)
  from find_in_set [OF Some] Some show ?thesis by (auto simp: getTransaction_def)
qed

lemma getTransaction_unknown:
  assumes "i \<notin> tx_id ` set (transactions v)"
  shows "getTransaction (Some v) i = None"
  using assms by (auto simp: getTransaction_def find_none_iff_no_match)

text \<open>With keys unique within the list, the lookup by key returns the element itself.\<close>

lemma find_distinct_key:
  assumes "distinct (map f xs)" and "x \<in> set xs"
  shows "List.find (\<lambda>y. f y = f x) xs = Some x"
  using assms by (induction xs) (auto simp: rev_image_eqI)

section \<open>Facts about the current address\<close>

text \<open>The address handed to \<open>useMultisig\<close> is \<open>null\<close> or a non-empty string.\<close>

lemma address_truthy_or_null: "address ud = None \<or> truthy (address ud)"
  by (auto simp: address_def split: option.splits)

lemma address_not_empty: "address ud \<noteq> Some []"
  using address_truthy_or_null [of ud] by (auto simp: truthy_def)

section \<open>Facts about \<open>fetchVault\<close>\<close>

lemma fetchVault_empty:
  "fetchVault [] now = [SetError (Some ''Vault address is required'')]"
  by (simp add: fetchVault_def)

lemma fetchVault_nonempty:
  assumes "a \<noteq> []"
  shows "fetchVault a now
           = [SetIsLoading True, SetError None, SetVault (mockVaultData a now), SetIsLoading False]"
  using assms by (simp add: fetchVault_def tryBody_def)

lemma afterFetchVault_empty:
  "afterFetchVault [] now s = s\<lparr>error := Some ''Vault address is required''\<rparr>"
  by (simp add: afterFetchVault_def fetchVault_empty)

lemma afterFetchVault_nonempty:
  assumes "a \<noteq> []"
  shows "vault (afterFetchVault a now s) = Some (mockVaultData a now)"
    and "isLoading (afterFetchVault a now s) = False"
    and "error (afterFetchVault a now s) = None"
  by (simp_all add: afterFetchVault_def fetchVault_nonempty [OF assms])

section \<open>Signature count and readiness\<close>

text \<open>
  Claim C1. For a loaded vault \<open>v\<close> and an id \<open>i\<close> that occurs in its transaction list,
  the lookup finds a transaction \<open>tx\<close> of the list with that id (the only one when ids
  are unique within the vault), \<open>getSignatureCount i\<close> is the number of entries of
  \<open>tx\<close>'s signer list whose \<open>hasSigned\<close> is true, and \<open>isReadyToExecute i\<close> is true
  exactly when that count is at least the vault's threshold.
\<close>

theorem signature_count_and_readiness:
  assumes "i \<in> tx_id ` set (transactions v)"
  shows "\<exists>tx \<in> set (transactions v).
           tx_id tx = i \<and> getTransaction (Some v) i = Some tx \<and>
           (distinct (map tx_id (transactions v)) \<longrightarrow>
              (\<forall>tx' \<in> set (transactions v). tx_id tx' = i \<longrightarrow> tx' = tx)) \<and>
           getSignatureCount (Some v) i = length (filter hasSigned (tx_signers tx)) \<and>
           (isReadyToExecute (Some v) i \<longleftrightarrow> threshold v \<le> int (getSignatureCount (Some v) i))"
proof -
  from getTransaction_known [OF assms] obtain tx
    where tx: "tx \<in> set (transactions v)" "tx_id tx = i" "getTransaction (Some v) i = Some tx"
    by blast
  have uniq: "tx' = tx"
    if d: "distinct (map tx_id (transactions v))"
      and m: "tx' \<in> set (transactions v)" and e: "tx_id tx' = i" for tx'
  proof -
    from find_distinct_key [OF d m] e tx(3) show ?thesis
      by (simp add: getTransaction_def)
  qed
  have cnt: "getSignatureCount (Some v) i = length (filter hasSigned (tx_signers tx))"
    using tx(3) by (simp add: getSignatureCount_def)
  have rdy: "isReadyToExecute (Some v) i \<longleftrightarrow> threshold v \<le> int (getSignatureCount (Some v) i)"
    by (simp add: isReadyToExecute_def)
  from tx uniq cnt rdy show ?thesis by blast
qed

theorem signature_count_and_readiness_witness:
  "''t1'' \<in> tx_id ` set (transactions sampleVault) \<and>
   (\<exists>tx \<in> set (transactions sampleVault).
      tx_id tx = ''t1'' \<and> getTransaction (Some sampleVault) ''t1'' = Some tx \<and>
      getSignatureCount (Some sampleVault) ''t1'' = length (filter hasSigned (tx_signers tx)) \<and>
      (isReadyToExecute (Some sampleVault) ''t1''
         \<longleftrightarrow> threshold sampleVault \<le> int (getSignatureCount (Some sampleVault) ''t1''))) \<and>
   getSignatureCount (Some sampleVault) ''t1'' = 2 \<and>
   isReadyToExecute (Some sampleVault) ''t1''"
proof -
  have h: "''t1'' \<in> tx_id ` set (transactions sampleVault)"
    by (simp add: sampleVault_def sampleTx_def)
  have c: "getSignatureCount (Some sampleVault) ''t1'' = 2"
    by (simp add: getSignatureCount_def getTransaction_def sampleVault_def sampleTx_def
        sampleSigners_def)
  have r: "isReadyToExecute (Some sampleVault) ''t1''"
    by (simp add: isReadyToExecute_def c) (simp add: sampleVault_def)
  from signature_count_and_readiness [OF h] h c r show ?thesis by blast
qed

section \<open>Pending and executed lists\<close>

text \<open>
  Claim C2. For a loaded vault, \<open>getPendingTransactions\<close> is the list of the vault's
  transactions whose status is not \<open>executed\<close>, in the vault's order (a transaction with
  status \<open>failed\<close> is in it), \<open>getExecutedTransactions\<close> is the list of those whose status
  is \<open>executed\<close>, and the two lists partition the transaction list: they share no
  element and together hold every transaction as often as the vault does.
\<close>

theorem pending_executed_partition:
  "getPendingTransactions (Some v) = filter (\<lambda>tx. status tx \<noteq> Executed) (transactions v) \<and>
   getExecutedTransactions (Some v) = filter (\<lambda>tx. status tx = Executed) (transactions v) \<and>
   (\<forall>tx. tx \<in> set (getPendingTransactions (Some v))
           \<longleftrightarrow> tx \<in> set (transactions v) \<and> status tx \<noteq> Executed) \<and>
   (\<forall>tx. tx \<in> set (getExecutedTransactions (Some v))
           \<longleftrightarrow> tx \<in> set (transactions v) \<and> status tx = Executed) \<and>
   (\<forall>tx \<in> set (transactions v). status tx = Failed \<longrightarrow> tx \<in> set (getPendingTransactions (Some v))) \<and>
   subseq (getPendingTransactions (Some v)) (transactions v) \<and>
   subseq (getExecutedTransactions (Some v)) (transactions v) \<and>
   set (getPendingTransactions (Some v)) \<inter> set (getExecutedTransactions (Some v)) = {} \<and>
   mset (getPendingTransactions (Some v)) + mset (getExecutedTransactions (Some v))
     = mset (transactions v)"
proof -
  have p: "getPendingTransactions (Some v) = filter (\<lambda>tx. status tx \<noteq> Executed) (transactions v)"
    by (simp add: getPendingTransactions_def)
  have e: "getExecutedTransactions (Some v) = filter (\<lambda>tx. status tx = Executed) (transactions v)"
    by (simp add: getExecutedTransactions_def)
  have m: "mset (filter (\<lambda>tx. status tx \<noteq> Executed) (transactions v))
             + mset (filter (\<lambda>tx. status tx = Executed) (transactions v)) = mset (transactions v)"
    by (induction "transactions v") (simp_all add: union_commute)
  have d: "set (filter (\<lambda>tx. status tx \<noteq> Executed) (transactions v))
             \<inter> set (filter (\<lambda>tx. status tx = Executed) (transactions v)) = {}"
    by auto
  show ?thesis
    unfolding p e using m d by auto
qed

theorem pending_executed_partition_witness:
  "getPendingTransactions (Some sampleVault) = [sampleTx ''t1'' Pending, sampleTx ''t3'' Failed] \<and>
   getExecutedTransactions (Some sampleVault) = [sampleTx ''t2'' Executed] \<and>
   sampleTx ''t3'' Failed \<in> set (transactions sampleVault) \<and>
   status (sampleTx ''t3'' Failed) = Failed \<and>
   sampleTx ''t3'' Failed \<in> set (getPendingTransactions (Some sampleVault)) \<and>
   mset (getPendingTransactions (Some sampleVault)) + mset (getExecutedTransactions (Some sampleVault))
     = mset (transactions sampleVault)"
proof -
  have s: "status (sampleTx i st) = st" for i st
    by (simp add: sampleTx_def)
  have t: "transactions sampleVault
             = [sampleTx ''t1'' Pending, sampleTx ''t2'' Executed, sampleTx ''t3'' Failed]"
    by (simp add: sampleVault_def)
  have p: "getPendingTransactions (Some sampleVault)
             = [sampleTx ''t1'' Pending, sampleTx ''t3'' Failed]"
    by (simp add: getPendingTransactions_def t s)
  have e: "getExecutedTransactions (Some sampleVault) = [sampleTx ''t2'' Executed]"
    by (simp add: getExecutedTransactions_def t s)
  have f: "sampleTx ''t3'' Failed \<in> set (transactions sampleVault)"
    by (simp add: t)
  from pending_executed_partition [of sampleVault] p e f s show ?thesis
    by blast
qed

section \<open>Unknown transaction ids\<close>

text \<open>
  Claim C3. For a loaded vault whose threshold is at least 1 and an id that occurs
  nowhere in its transaction list, \<open>getSignatureCount\<close> is 0 and \<open>isReadyToExecute\<close>
  is false. Both are plain values: neither function has a branch that throws.
\<close>

theorem unknown_id_neutral:
  assumes "1 \<le> threshold v" and "i \<notin> tx_id ` set (transactions v)"
  shows "getSignatureCount (Some v) i = 0 \<and> \<not> isReadyToExecute (Some v) i"
proof -
  from getTransaction_unknown [OF assms(2)]
  have c: "getSignatureCount (Some v) i = 0"
    by (simp add: getSignatureCount_def)
  with assms(1) show ?thesis
    by (simp add: isReadyToExecute_def)
qed

theorem unknown_id_neutral_witness:
  "1 \<le> threshold sampleVault \<and> ''t9'' \<notin> tx_id ` set (transactions sampleVault) \<and>
   getSignatureCount (Some sampleVault) ''t9'' = 0 \<and>
   \<not> isReadyToExecute (Some sampleVault) ''t9''"
proof -
  have h1: "1 \<le> threshold sampleVault"
    by (simp add: sampleVault_def)
  have h2: "''t9'' \<notin> tx_id ` set (transactions sampleVault)"
    by (simp add: sampleVault_def sampleTx_def)
  from unknown_id_neutral [OF h1 h2] h1 h2 show ?thesis by blast
qed

section \<open>The current user's signature\<close>

text \<open>
  The lookups of \<open>hasUserSigned\<close> are \<open>Array.find\<close>: the first element that passes
  the test, with every element before it failing it.
\<close>

lemma find_Some_split:
  "List.find P xs = Some x \<longleftrightarrow> (\<exists>pre post. xs = pre @ x # post \<and> P x \<and> (\<forall>y \<in> set pre. \<not> P y))"
proof (induction xs)
  case Nil
  then show ?case by simp
next
  case (Cons z zs)
  show ?case
  proof (cases "P z")
    case True
    have "(\<exists>pre post. z # zs = pre @ x # post \<and> P x \<and> (\<forall>y \<in> set pre. \<not> P y)) \<longleftrightarrow> z = x"
    proof
      assume "\<exists>pre post. z # zs = pre @ x # post \<and> P x \<and> (\<forall>y \<in> set pre. \<not> P y)"
      then obtain pre post where e: "z # zs = pre @ x # post" and n: "\<forall>y \<in> set pre. \<not> P y"
        by blast
      show "z = x"
      proof (cases pre)
        case Nil
        with e show ?thesis by simp
      next
        case (Cons p ps)
        with e have "p = z" by simp
        with Cons n True show ?thesis by simp
      qed
    next
      assume "z = x"
      with True have "z # zs = [] @ x # zs \<and> P x \<and> (\<forall>y \<in> set []. \<not> P y)" by simp
      then show "\<exists>pre post. z # zs = pre @ x # post \<and> P x \<and> (\<forall>y \<in> set pre. \<not> P y)"
        by blast
    qed
    with True show ?thesis by simp
  next
    case False
    have "(\<exists>pre post. z # zs = pre @ x # post \<and> P x \<and> (\<forall>y \<in> set pre. \<not> P y))
          \<longleftrightarrow> (\<exists>pre post. zs = pre @ x # post \<and> P x \<and> (\<forall>y \<in> set pre. \<not> P y))"
    proof
      assume "\<exists>pre post. z # zs = pre @ x # post \<and> P x \<and> (\<forall>y \<in> set pre. \<not> P y)"
      then obtain pre post where e: "z # zs = pre @ x # post" and px: "P x"
        and n: "\<forall>y \<in> set pre. \<not> P y"
        by blast
      show "\<exists>pre post. zs = pre @ x # post \<and> P x \<and> (\<forall>y \<in> set pre. \<not> P y)"
      proof (cases pre)
        case Nil
        with e px False show ?thesis by simp
      next
        case (Cons p ps)
        with e n px have "zs = ps @ x # post \<and> P x \<and> (\<forall>y \<in> set ps. \<not> P y)" by simp
        then show ?thesis by blast
      qed
    next
      assume "\<exists>pre post. zs = pre @ x # post \<and> P x \<and> (\<forall>y \<in> set pre. \<not> P y)"
      then obtain pre post where "zs = pre @ x # post" "P x" "\<forall>y \<in> set pre. \<not> P y"
        by blast
      with False have "z # zs = (z # pre) @ x # post \<and> P x \<and> (\<forall>y \<in> set (z # pre). \<not> P y)"
        by simp
      then show "\<exists>pre post. z # zs = pre @ x # post \<and> P x \<and> (\<forall>y \<in> set pre. \<not> P y)"
        by blast
    qed
    with False Cons.IH show ?thesis by simp
  qed
qed

lemma hasUserSigned_unfold:
  assumes "a \<noteq> []"
  shows "hasUserSigned (Some v) (Some a) i \<longleftrightarrow>
           (\<exists>tx s. List.find (\<lambda>tx. tx_id tx = i) (transactions v) = Some tx \<and>
                   List.find (\<lambda>s. signer_address s = a) (tx_signers tx) = Some s \<and> hasSigned s)"
  using assms by (auto simp: hasUserSigned_def getTransaction_def split: option.splits)

text \<open>
  Claim C4. With \<open>userAddress\<close> the address of the identity layer, \<open>hasUserSigned i\<close>
  is true exactly when that address is set, a vault is loaded, its transaction list
  holds a transaction with id \<open>i\<close>, and in the first such transaction the first signer
  entry whose address is the current address (compared with \<open>=\<close> on strings) has
  \<open>hasSigned\<close> true. Where ids are unique within the vault and the addresses of that
  transaction's signer list are pairwise different, it is true exactly when some
  transaction of the list has id \<open>i\<close> and some entry of its signer list carries the
  address with \<open>hasSigned\<close> true. It is false when the address is \<open>null\<close>, when no
  vault is loaded, when the id occurs nowhere in the vault, and when no signer entry
  of a transaction with that id carries the address.
\<close>

theorem hasUserSigned_iff:
  "(hasUserSigned vlt (address ud) i \<longleftrightarrow>
      (\<exists>a v pre tx post spre s spost.
         address ud = Some a \<and> vlt = Some v \<and>
         transactions v = pre @ tx # post \<and> i \<notin> tx_id ` set pre \<and> tx_id tx = i \<and>
         tx_signers tx = spre @ s # spost \<and> a \<notin> signer_address ` set spre \<and>
         signer_address s = a \<and> hasSigned s)) \<and>
   (\<forall>v a. vlt = Some v \<and> address ud = Some a \<and> distinct (map tx_id (transactions v)) \<and>
          (\<forall>tx \<in> set (transactions v). tx_id tx = i \<longrightarrow> distinct (map signer_address (tx_signers tx)))
        \<longrightarrow> (hasUserSigned vlt (address ud) i
              \<longleftrightarrow> (\<exists>tx \<in> set (transactions v). tx_id tx = i \<and>
                     (\<exists>s \<in> set (tx_signers tx). signer_address s = a \<and> hasSigned s)))) \<and>
   (address ud = None \<longrightarrow> \<not> hasUserSigned vlt (address ud) i) \<and>
   (vlt = None \<longrightarrow> \<not> hasUserSigned vlt (address ud) i) \<and>
   (\<forall>v. vlt = Some v \<and> i \<notin> tx_id ` set (transactions v)
        \<longrightarrow> \<not> hasUserSigned vlt (address ud) i) \<and>
   (\<forall>v a. vlt = Some v \<and> address ud = Some a \<and>
          (\<forall>tx \<in> set (transactions v). tx_id tx = i \<longrightarrow> a \<notin> signer_address ` set (tx_signers tx))
        \<longrightarrow> \<not> hasUserSigned vlt (address ud) i)"
proof -
  have ne: "address ud \<noteq> Some []" by (rule address_not_empty)
  have main: "hasUserSigned vlt (address ud) i \<longleftrightarrow>
      (\<exists>a v pre tx post spre s spost.
         address ud = Some a \<and> vlt = Some v \<and>
         transactions v = pre @ tx # post \<and> i \<notin> tx_id ` set pre \<and> tx_id tx = i \<and>
         tx_signers tx = spre @ s # spost \<and> a \<notin> signer_address ` set spre \<and>
         signer_address s = a \<and> hasSigned s)"
    (is "?L \<longleftrightarrow> ?R")
  proof
    assume l: ?L
    then obtain a where a: "address ud = Some a"
      by (cases "address ud") (simp_all add: hasUserSigned_def)
    from l a obtain v where v: "vlt = Some v"
      by (cases vlt) (simp_all add: hasUserSigned_def getTransaction_def split: if_splits)
    from ne a have an: "a \<noteq> []" by auto
    from l a v hasUserSigned_unfold [OF an, of v i] obtain tx s
      where ft: "List.find (\<lambda>tx. tx_id tx = i) (transactions v) = Some tx"
        and fs: "List.find (\<lambda>s. signer_address s = a) (tx_signers tx) = Some s"
        and h: "hasSigned s"
      by auto
    from ft obtain pre post where p: "transactions v = pre @ tx # post" "tx_id tx = i"
      "\<forall>y \<in> set pre. tx_id y \<noteq> i"
      unfolding find_Some_split by blast
    from fs obtain spre spost where q: "tx_signers tx = spre @ s # spost" "signer_address s = a"
      "\<forall>y \<in> set spre. signer_address y \<noteq> a"
      unfolding find_Some_split by blast
    from p(3) have p3: "i \<notin> tx_id ` set pre" by auto
    from q(3) have q3: "a \<notin> signer_address ` set spre" by auto
    from a v p(1) p3 p(2) q(1) q3 q(2) h show ?R by blast
  next
    assume ?R
    then obtain a v pre tx post spre s spost where a: "address ud = Some a" and v: "vlt = Some v"
      and p: "transactions v = pre @ tx # post" "i \<notin> tx_id ` set pre" "tx_id tx = i"
      and q: "tx_signers tx = spre @ s # spost" "a \<notin> signer_address ` set spre"
        "signer_address s = a"
      and h: "hasSigned s"
      by blast
    from ne a have an: "a \<noteq> []" by auto
    from p(2) have pn: "\<forall>y \<in> set pre. \<not> tx_id y = i" by auto
    from p(1) p(3) pn
    have "\<exists>pre post. transactions v = pre @ tx # post \<and> tx_id tx = i \<and>
                   (\<forall>y \<in> set pre. \<not> tx_id y = i)"
      by blast
    then have ft: "List.find (\<lambda>tx. tx_id tx = i) (transactions v) = Some tx"
      unfolding find_Some_split .
    from q(2) have qn: "\<forall>y \<in> set spre. \<not> signer_address y = a" by auto
    from q(1) q(3) qn
    have "\<exists>spre spost. tx_signers tx = spre @ s # spost \<and> signer_address s = a \<and>
                   (\<forall>y \<in> set spre. \<not> signer_address y = a)"
      by blast
    then have fs: "List.find (\<lambda>s. signer_address s = a) (tx_signers tx) = Some s"
      unfolding find_Some_split .
    from ft fs h hasUserSigned_unfold [OF an, of v i] a v show ?L by auto
  qed
  have dist: "hasUserSigned vlt (address ud) i
                \<longleftrightarrow> (\<exists>tx \<in> set (transactions v). tx_id tx = i \<and>
                       (\<exists>s \<in> set (tx_signers tx). signer_address s = a \<and> hasSigned s))"
    if c: "vlt = Some v \<and> address ud = Some a \<and> distinct (map tx_id (transactions v)) \<and>
           (\<forall>tx \<in> set (transactions v). tx_id tx = i
              \<longrightarrow> distinct (map signer_address (tx_signers tx)))" for v a
  proof
    assume "hasUserSigned vlt (address ud) i"
    with main c obtain pre tx post spre s spost
      where "transactions v = pre @ tx # post" "tx_id tx = i"
        "tx_signers tx = spre @ s # spost" "signer_address s = a" "hasSigned s"
      by auto
    then have "tx \<in> set (transactions v) \<and> tx_id tx = i \<and> s \<in> set (tx_signers tx) \<and>
               signer_address s = a \<and> hasSigned s"
      by simp
    then show "\<exists>tx \<in> set (transactions v). tx_id tx = i \<and>
                 (\<exists>s \<in> set (tx_signers tx). signer_address s = a \<and> hasSigned s)"
      by blast
  next
    assume "\<exists>tx \<in> set (transactions v). tx_id tx = i \<and>
              (\<exists>s \<in> set (tx_signers tx). signer_address s = a \<and> hasSigned s)"
    then obtain tx s where t: "tx \<in> set (transactions v)" "tx_id tx = i"
      and s: "s \<in> set (tx_signers tx)" "signer_address s = a" "hasSigned s"
      by blast
    from c have d1: "distinct (map tx_id (transactions v))" by simp
    from c t have d2: "distinct (map signer_address (tx_signers tx))" by simp
    from find_distinct_key [OF d1 t(1)] t(2)
    have ft: "List.find (\<lambda>tx. tx_id tx = i) (transactions v) = Some tx" by simp
    from find_distinct_key [OF d2 s(1)] s(2)
    have fs: "List.find (\<lambda>s. signer_address s = a) (tx_signers tx) = Some s" by simp
    from ne c have an: "a \<noteq> []" by auto
    from ft fs s(3) hasUserSigned_unfold [OF an, of v i] c
    show "hasUserSigned vlt (address ud) i" by auto
  qed
  have noaddr: "address ud = None \<longrightarrow> \<not> hasUserSigned vlt (address ud) i"
    using main by auto
  have novault: "vlt = None \<longrightarrow> \<not> hasUserSigned vlt (address ud) i"
    using main by auto
  have noid: "\<not> hasUserSigned vlt (address ud) i"
    if "vlt = Some v \<and> i \<notin> tx_id ` set (transactions v)" for v
  proof
    assume "hasUserSigned vlt (address ud) i"
    with main that obtain pre tx post where "transactions v = pre @ tx # post" "tx_id tx = i"
      by auto
    then have "i \<in> tx_id ` set (transactions v)" by force
    with that show False by simp
  qed
  have nosigner: "\<not> hasUserSigned vlt (address ud) i"
    if c: "vlt = Some v \<and> address ud = Some a \<and>
        (\<forall>tx \<in> set (transactions v). tx_id tx = i \<longrightarrow> a \<notin> signer_address ` set (tx_signers tx))"
    for v a
  proof
    assume "hasUserSigned vlt (address ud) i"
    with main c obtain pre tx post spre s spost
      where "transactions v = pre @ tx # post" "tx_id tx = i"
        "tx_signers tx = spre @ s # spost" "signer_address s = a"
      by auto
    then have "tx \<in> set (transactions v) \<and> tx_id tx = i \<and> a \<in> signer_address ` set (tx_signers tx)"
      by force
    with c show False by blast
  qed
  from main dist noaddr novault noid nosigner show ?thesis by blast
qed

theorem hasUserSigned_iff_witness:
  "address (sampleUser None (Some ''SA'')) = Some ''SA'' \<and>
   distinct (map tx_id (transactions sampleVault)) \<and>
   distinct (map signer_address (tx_signers (sampleTx ''t3'' Failed))) \<and>
   (\<exists>tx \<in> set (transactions sampleVault). tx_id tx = ''t3'' \<and>
      (\<exists>s \<in> set (tx_signers tx). signer_address s = ''SA'' \<and> hasSigned s)) \<and>
   hasUserSigned (Some sampleVault) (address (sampleUser None (Some ''SA''))) ''t3'' \<and>
   address (sampleUser None (Some ''SB'')) = Some ''SB'' \<and>
   \<not> hasUserSigned (Some sampleVault) (address (sampleUser None (Some ''SB''))) ''t3'' \<and>
   ''t9'' \<notin> tx_id ` set (transactions sampleVault) \<and>
   \<not> hasUserSigned (Some sampleVault) (address (sampleUser None (Some ''SA''))) ''t9'' \<and>
   address (sampleUser None None) = None \<and>
   \<not> hasUserSigned (Some sampleVault) (address (sampleUser None None)) ''t3''"
proof -
  have a: "address (sampleUser None (Some ''SA'')) = Some ''SA''"
    by (simp add: address_def stxAddressOf_def sampleUser_def truthy_def)
  have b: "address (sampleUser None (Some ''SB'')) = Some ''SB''"
    by (simp add: address_def stxAddressOf_def sampleUser_def truthy_def)
  have n: "address (sampleUser None None) = None"
    by (simp add: address_def stxAddressOf_def sampleUser_def truthy_def)
  have d1: "distinct (map tx_id (transactions sampleVault))"
    by (simp add: sampleVault_def sampleTx_def)
  have d2: "\<forall>tx \<in> set (transactions sampleVault). tx_id tx = ''t3''
              \<longrightarrow> distinct (map signer_address (tx_signers tx))"
    by (simp add: sampleVault_def sampleTx_def sampleSigners_def)
  have ea: "\<exists>tx \<in> set (transactions sampleVault). tx_id tx = ''t3'' \<and>
              (\<exists>s \<in> set (tx_signers tx). signer_address s = ''SA'' \<and> hasSigned s)"
    by (simp add: sampleVault_def sampleTx_def sampleSigners_def)
  have eb: "\<not> (\<exists>tx \<in> set (transactions sampleVault). tx_id tx = ''t3'' \<and>
              (\<exists>s \<in> set (tx_signers tx). signer_address s = ''SB'' \<and> hasSigned s))"
    by (simp add: sampleVault_def sampleTx_def sampleSigners_def)
  have u: "''t9'' \<notin> tx_id ` set (transactions sampleVault)"
    by (simp add: sampleVault_def sampleTx_def)
  note w = hasUserSigned_iff
  from w [of "Some sampleVault" "sampleUser None (Some ''SA'')" "''t3''"] a d1 d2 ea
  have ra: "hasUserSigned (Some sampleVault) (address (sampleUser None (Some ''SA''))) ''t3''"
    by blast
  from w [of "Some sampleVault" "sampleUser None (Some ''SB'')" "''t3''"] b d1 d2 eb
  have rb: "\<not> hasUserSigned (Some sampleVault) (address (sampleUser None (Some ''SB''))) ''t3''"
    by blast
  from w [of "Some sampleVault" "sampleUser None (Some ''SA'')" "''t9''"] u
  have ru: "\<not> hasUserSigned (Some sampleVault) (address (sampleUser None (Some ''SA''))) ''t9''"
    by blast
  from w [of "Some sampleVault" "sampleUser None None" "''t3''"] n
  have rn: "\<not> hasUserSigned (Some sampleVault) (address (sampleUser None None)) ''t3''"
    by blast
  have d3: "distinct (map signer_address (tx_signers (sampleTx ''t3'' Failed)))"
    by (simp add: sampleTx_def sampleSigners_def)
  from a d1 d3 ea ra b rb u ru n rn show ?thesis by blast
qed

section \<open>Authorized signer\<close>

text \<open>
  Claim C7. With \<open>userAddress\<close> the address of the identity layer, \<open>isSigner\<close> is
  true exactly when a vault is loaded, the address is set and the address is an element
  of the vault's \<open>signers\<close> (compared with \<open>=\<close> on strings); it is false when the vault
  is \<open>null\<close> and when the address is \<open>null\<close>.
\<close>

theorem isSigner_iff:
  "(isSigner vlt (address ud)
      \<longleftrightarrow> (\<exists>v a. vlt = Some v \<and> address ud = Some a \<and> a \<in> set (vault_signers v))) \<and>
   \<not> isSigner None ua \<and> \<not> isSigner vlt None"
proof -
  have ne: "address ud \<noteq> Some []" by (rule address_not_empty)
  have "isSigner vlt (address ud)
          \<longleftrightarrow> (\<exists>v a. vlt = Some v \<and> address ud = Some a \<and> a \<in> set (vault_signers v))"
    using ne by (cases vlt; cases "address ud") (auto simp: isSigner_def)
  moreover have "\<not> isSigner None ua"
    by (simp add: isSigner_def)
  moreover have "\<not> isSigner vlt None"
    by (simp add: isSigner_def split: option.splits)
  ultimately show ?thesis by blast
qed

theorem isSigner_iff_witness:
  "isSigner (Some sampleVault) (address (sampleUser (Some ''SB'') None)) \<and>
   \<not> isSigner (Some sampleVault) (address (sampleUser (Some ''SX'') None)) \<and>
   \<not> isSigner None (address (sampleUser (Some ''SB'') None)) \<and>
   \<not> isSigner (Some sampleVault) None"
proof -
  have b: "address (sampleUser (Some ''SB'') None) = Some ''SB''"
    by (simp add: address_def stxAddressOf_def sampleUser_def truthy_def)
  have x: "address (sampleUser (Some ''SX'') None) = Some ''SX''"
    by (simp add: address_def stxAddressOf_def sampleUser_def truthy_def)
  have m: "vault_signers sampleVault = [''SA'', ''SB'', ''SC'']"
    by (simp add: sampleVault_def)
  from isSigner_iff [of "Some sampleVault" "sampleUser (Some ''SB'') None" "Some ''SB''"]
    isSigner_iff [of "Some sampleVault" "sampleUser (Some ''SX'') None" "Some ''SB''"]
  show ?thesis
    by (simp add: b x m)
qed

section \<open>Address selection\<close>

text \<open>
  Claim C9. The address of the identity layer prefers testnet: for user data with a
  profile \<open>p\<close> whose \<open>stxAddress\<close> is \<open>sa\<close>, when \<open>sa\<close> has a testnet address (a
  non-empty string, the only strings JavaScript's \<open>||\<close> keeps) the address is that one,
  whatever the mainnet field holds; otherwise, when it has a mainnet address, the
  address is that one; otherwise it is \<open>null\<close>. It is \<open>null\<close> too when the user data,
  the profile or \<open>stxAddress\<close> is missing.
\<close>

theorem address_prefers_testnet:
  "(ud = None \<longrightarrow> address ud = None) \<and>
   (\<forall>d. ud = Some d \<and> profile d = None \<longrightarrow> address ud = None) \<and>
   (\<forall>d p. ud = Some d \<and> profile d = Some p \<and> stxAddress p = None \<longrightarrow> address ud = None) \<and>
   (\<forall>d p sa. ud = Some d \<and> profile d = Some p \<and> stxAddress p = Some sa \<longrightarrow>
      (\<forall>t. testnet sa = Some t \<and> t \<noteq> [] \<longrightarrow> address ud = Some t) \<and>
      (\<forall>m. (testnet sa = None \<or> testnet sa = Some []) \<and> mainnet sa = Some m \<and> m \<noteq> []
           \<longrightarrow> address ud = Some m) \<and>
      ((testnet sa = None \<or> testnet sa = Some []) \<and> (mainnet sa = None \<or> mainnet sa = Some [])
           \<longrightarrow> address ud = None))"
  by (auto simp: address_def stxAddressOf_def truthy_def)

theorem address_prefers_testnet_witness:
  "address (sampleUser (Some ''SP1'') (Some ''ST1'')) = Some ''ST1'' \<and>
   address (sampleUser None (Some ''ST1'')) = Some ''ST1'' \<and>
   address (sampleUser (Some ''SP1'') None) = Some ''SP1'' \<and>
   address (sampleUser None None) = None \<and>
   address None = None"
proof -
  note w = address_prefers_testnet
  have "address (sampleUser (Some ''SP1'') (Some ''ST1'')) = Some ''ST1''"
    using w [of "sampleUser (Some ''SP1'') (Some ''ST1'')"] by (simp add: sampleUser_def)
  moreover have "address (sampleUser None (Some ''ST1'')) = Some ''ST1''"
    using w [of "sampleUser None (Some ''ST1'')"] by (simp add: sampleUser_def)
  moreover have "address (sampleUser (Some ''SP1'') None) = Some ''SP1''"
    using w [of "sampleUser (Some ''SP1'') None"] by (simp add: sampleUser_def)
  moreover have "address (sampleUser None None) = None"
    using w [of "sampleUser None None"] by (simp add: sampleUser_def)
  moreover have "address None = None"
    using w [of None] by simp
  ultimately show ?thesis by blast
qed

section \<open>Failure of \<open>fetchVault\<close>\<close>

text \<open>
  Claim C5 says that \<open>fetchVault\<close> fails with an InvalidAddress error for every
  address that is empty or malformed. The only test of the source is \<open>!vaultAddress\<close>:
  the string \<open>!\<close>, which is no account address, loads a vault and leaves no error.
\<close>

theorem fetchVault_malformed_counterexample:
  "error (afterFetchVault ''!'' 0 initialState) = None \<and>
   vault (afterFetchVault ''!'' 0 initialState) = Some (mockVaultData ''!'' 0) \<and>
   vault (afterFetchVault ''!'' 0 initialState) \<noteq> None"
  by (simp add: afterFetchVault_nonempty)

text \<open>
  Claim C5, amended. \<open>fetchVault\<close> fails exactly for the empty address: the error
  becomes the message \<open>Vault address is required\<close> and the vault stays what it was, so
  the call loads no vault. For every other string, well-formed or not, the call ends
  with no error and with the placeholder vault for that string loaded.
\<close>

theorem fetchVault_fails_iff_empty:
  "(a = [] \<longrightarrow>
      error (afterFetchVault a now s) = Some ''Vault address is required'' \<and>
      vault (afterFetchVault a now s) = vault s) \<and>
   (a \<noteq> [] \<longrightarrow>
      error (afterFetchVault a now s) = None \<and>
      vault (afterFetchVault a now s) = Some (mockVaultData a now) \<and>
      vault_address (mockVaultData a now) = a)"
proof (cases "a = []")
  case True
  then show ?thesis by (simp add: afterFetchVault_empty)
next
  case False
  then show ?thesis by (simp add: afterFetchVault_nonempty) (simp add: mockVaultData_def)
qed

theorem fetchVault_fails_iff_empty_witness:
  "error (afterFetchVault [] 0 initialState) = Some ''Vault address is required'' \<and>
   vault (afterFetchVault [] 0 initialState) = None \<and>
   ''SV'' \<noteq> [] \<and>
   error (afterFetchVault ''SV'' 0 initialState) = None \<and>
   vault (afterFetchVault ''SV'' 0 initialState) = Some (mockVaultData ''SV'' 0)"
  using fetchVault_fails_iff_empty [of "[]" 0 initialState]
    fetchVault_fails_iff_empty [of "''SV''" 0 initialState]
  by (simp add: initialState_def)

section \<open>Repeated \<open>fetchVault\<close>\<close>

text \<open>
  Claim C6 says that two successive calls with the same non-empty address give equal
  address, signers, threshold, balance and transactions. The transaction of the
  placeholder vault carries \<open>Date.now()\<close>: with the clock at 0 for the first call and at
  1 for the second, the two transaction lists differ.
\<close>

theorem fetchVault_idempotent_counterexample:
  "map_option transactions (vault (afterFetchVault ''SV'' 1 (afterFetchVault ''SV'' 0 initialState)))
     \<noteq> map_option transactions (vault (afterFetchVault ''SV'' 0 initialState))"
  by (simp add: afterFetchVault_nonempty) (simp add: mockVaultData_def)

text \<open>
  Claim C6, amended. For every non-empty address, two successive calls with that
  address give vaults with equal address, signers, threshold and balance, and with
  transaction lists that are equal in every field but \<open>timestamp\<close>, which holds the
  clock reading of each call; the two vaults are equal exactly when both calls read
  the same clock value.
\<close>

theorem fetchVault_repeat:
  assumes "a \<noteq> []"
  shows "\<exists>v1 v2.
           vault (afterFetchVault a t1 s) = Some v1 \<and>
           vault (afterFetchVault a t2 (afterFetchVault a t1 s)) = Some v2 \<and>
           vault_address v1 = vault_address v2 \<and>
           vault_signers v1 = vault_signers v2 \<and>
           threshold v1 = threshold v2 \<and>
           balance v1 = balance v2 \<and>
           map eraseTimestamp (transactions v1) = map eraseTimestamp (transactions v2) \<and>
           map timestamp (transactions v1) = [t1] \<and>
           map timestamp (transactions v2) = [t2] \<and>
           (v1 = v2 \<longleftrightarrow> t1 = t2)"
proof -
  have v1: "vault (afterFetchVault a t1 s) = Some (mockVaultData a t1)"
    by (rule afterFetchVault_nonempty(1) [OF assms])
  have v2: "vault (afterFetchVault a t2 (afterFetchVault a t1 s)) = Some (mockVaultData a t2)"
    by (rule afterFetchVault_nonempty(1) [OF assms])
  have f: "vault_address (mockVaultData a t1) = vault_address (mockVaultData a t2)"
    "vault_signers (mockVaultData a t1) = vault_signers (mockVaultData a t2)"
    "threshold (mockVaultData a t1) = threshold (mockVaultData a t2)"
    "balance (mockVaultData a t1) = balance (mockVaultData a t2)"
    by (simp_all add: mockVaultData_def)
  have e: "map eraseTimestamp (transactions (mockVaultData a t1))
             = map eraseTimestamp (transactions (mockVaultData a t2))"
    by (simp add: mockVaultData_def eraseTimestamp_def)
  have t: "map timestamp (transactions (mockVaultData a t)) = [t]" for t
    by (simp add: mockVaultData_def)
  have q: "mockVaultData a t1 = mockVaultData a t2 \<longleftrightarrow> t1 = t2"
  proof
    assume "mockVaultData a t1 = mockVaultData a t2"
    then have "map timestamp (transactions (mockVaultData a t1))
                 = map timestamp (transactions (mockVaultData a t2))"
      by simp
    then show "t1 = t2" by (simp add: t)
  qed simp
  from v1 v2 f e t q show ?thesis by blast
qed

theorem fetchVault_repeat_witness:
  "''SV'' \<noteq> [] \<and>
   (\<exists>v1 v2.
      vault (afterFetchVault ''SV'' 5 initialState) = Some v1 \<and>
      vault (afterFetchVault ''SV'' 9 (afterFetchVault ''SV'' 5 initialState)) = Some v2 \<and>
      vault_address v1 = vault_address v2 \<and>
      vault_signers v1 = vault_signers v2 \<and>
      threshold v1 = threshold v2 \<and>
      balance v1 = balance v2 \<and>
      map eraseTimestamp (transactions v1) = map eraseTimestamp (transactions v2) \<and>
      map timestamp (transactions v1) = [5] \<and>
      map timestamp (transactions v2) = [9] \<and>
      (v1 = v2 \<longleftrightarrow> (5::int) = 9))"
proof (rule conjI)
  show h: "''SV'' \<noteq> []" by simp
  show "\<exists>v1 v2.
      vault (afterFetchVault ''SV'' 5 initialState) = Some v1 \<and>
      vault (afterFetchVault ''SV'' 9 (afterFetchVault ''SV'' 5 initialState)) = Some v2 \<and>
      vault_address v1 = vault_address v2 \<and>
      vault_signers v1 = vault_signers v2 \<and>
      threshold v1 = threshold v2 \<and>
      balance v1 = balance v2 \<and>
      map eraseTimestamp (transactions v1) = map eraseTimestamp (transactions v2) \<and>
      map timestamp (transactions v1) = [5] \<and>
      map timestamp (transactions v2) = [9] \<and>
      (v1 = v2 \<longleftrightarrow> (5::int) = 9)"
    by (rule fetchVault_repeat [OF h])
qed

section \<open>The vault invariant after \<open>fetchVault\<close>\<close>

text \<open>
  Claim C8. Every vault that a call of \<open>fetchVault\<close> hands to \<open>setVault\<close> has a
  threshold of at least 1 and at most the number of its signers (who are pairwise
  different), and its address is the requested one; a call with a non-empty address
  succeeds and loads such a vault.
\<close>

theorem fetchVault_vault_invariant:
  "(\<forall>v. SetVault v \<in> set (fetchVault a now) \<longrightarrow>
        1 \<le> threshold v \<and> threshold v \<le> int (length (vault_signers v)) \<and>
        threshold v \<le> int (card (set (vault_signers v))) \<and> vault_address v = a) \<and>
   (a \<noteq> [] \<longrightarrow>
      (\<exists>v. vault (afterFetchVault a now s) = Some v \<and> SetVault v \<in> set (fetchVault a now) \<and>
           error (afterFetchVault a now s) = None))"
proof -
  have s3: "vault_signers (mockVaultData a now)
              = [''SP2RVXN8ZCJQY8ZCJQY8ZCJQY8ZCJQY8ZCJQY8Z'',
                 ''ST2RVXN8ZCJQY8ZCJQY8ZCJQY8ZCJQY8ZCJQY8Z'',
                 ''SP3RVXN8ZCJQY8ZCJQY8ZCJQY8ZCJQY8ZCJQY8Z'']"
    by (simp add: mockVaultData_def)
  have d: "distinct (vault_signers (mockVaultData a now))"
    unfolding s3 by simp
  have l: "length (vault_signers (mockVaultData a now)) = 3"
    unfolding s3 by simp
  from distinct_card [OF d] l
  have c: "card (set (vault_signers (mockVaultData a now))) = 3" by simp
  have th: "threshold (mockVaultData a now) = 2" "vault_address (mockVaultData a now) = a"
    by (simp_all add: mockVaultData_def)
  have only: "v = mockVaultData a now" if "SetVault v \<in> set (fetchVault a now)" for v
    using that by (cases "a = []") (simp_all add: fetchVault_empty fetchVault_nonempty)
  have inv: "1 \<le> threshold v \<and> threshold v \<le> int (length (vault_signers v)) \<and>
             threshold v \<le> int (card (set (vault_signers v))) \<and> vault_address v = a"
    if "SetVault v \<in> set (fetchVault a now)" for v
    using only [OF that] l c th by simp
  have ok: "\<exists>v. vault (afterFetchVault a now s) = Some v \<and> SetVault v \<in> set (fetchVault a now) \<and>
               error (afterFetchVault a now s) = None"
    if "a \<noteq> []"
    using that by (simp add: afterFetchVault_nonempty fetchVault_nonempty)
  from inv ok show ?thesis by blast
qed

theorem fetchVault_vault_invariant_witness:
  "''SV'' \<noteq> [] \<and>
   (\<exists>v. vault (afterFetchVault ''SV'' 0 initialState) = Some v \<and>
        SetVault v \<in> set (fetchVault ''SV'' 0) \<and>
        1 \<le> threshold v \<and> threshold v \<le> int (length (vault_signers v)) \<and>
        vault_address v = ''SV'')"
proof -
  have h: "''SV'' \<noteq> []" by simp
  from fetchVault_vault_invariant [of "''SV''" 0 initialState] h show ?thesis by blast
qed

section \<open>\<open>fetchVault\<close> with the empty address\<close>

text \<open>
  Claim C10. A call of \<open>fetchVault\<close> with the empty address invokes one setter only,
  \<open>setError\<close> with the message \<open>Vault address is required\<close>: neither \<open>setIsLoading\<close>
  nor \<open>setVault\<close> is called, so the vault loaded before (if any) and the loading flag
  are what they were, and the state after the call differs from the state before it
  in \<open>error\<close> alone.
\<close>

theorem fetchVault_empty_atomic:
  "fetchVault [] now = [SetError (Some ''Vault address is required'')] \<and>
   (\<forall>b. SetIsLoading b \<notin> set (fetchVault [] now)) \<and>
   (\<forall>v. SetVault v \<notin> set (fetchVault [] now)) \<and>
   vault (afterFetchVault [] now s) = vault s \<and>
   isLoading (afterFetchVault [] now s) = isLoading s \<and>
   error (afterFetchVault [] now s) = Some ''Vault address is required'' \<and>
   afterFetchVault [] now s = s\<lparr>error := Some ''Vault address is required''\<rparr>"
  by (simp add: fetchVault_empty afterFetchVault_empty)

theorem fetchVault_empty_atomic_witness:
  "vault (afterFetchVault [] 7 (afterFetchVault ''SV'' 3 initialState)) = Some (mockVaultData ''SV'' 3) \<and>
   isLoading (afterFetchVault [] 7 (afterFetchVault ''SV'' 3 initialState)) = False \<and>
   error (afterFetchVault [] 7 (afterFetchVault ''SV'' 3 initialState))
     = Some ''Vault address is required''"
  using fetchVault_empty_atomic [of 7 "afterFetchVault ''SV'' 3 initialState"]
  by (simp add: afterFetchVault_nonempty)

end
